theory Spec2Isabelle
  imports Main
begin

section \<open>Velodent chat backend: the rules-based chat endpoint\<close>

text \<open>
  A shallow embedding of \<^verbatim>\<open>chat\<close> (\<^verbatim>\<open>src/main.py\<close>, lines 96 to 178) and of the
  \<^verbatim>\<open>Event\<close> schema (\<^verbatim>\<open>src/schemas.py\<close>, lines 28 to 34).

  A Python \<^verbatim>\<open>str\<close> is a \<^typ>\<open>string\<close> whose characters are the code points U+0000 to
  U+00FF; on these \<^verbatim>\<open>str.strip\<close> and \<^verbatim>\<open>str.lower\<close> are modelled exactly. Code points
  above U+00FF are outside the model.
\<close>

subsection \<open>Python strings\<close>

text \<open>\<^verbatim>\<open>str.isspace\<close> on one code point below U+0100: TAB, LF, VT, FF, CR, the four
  separators U+001C to U+001F, SPACE, NEL (U+0085) and NBSP (U+00A0).\<close>

definition py_isspace :: "char \<Rightarrow> bool" where
  "py_isspace c =
     (let n = (of_char c :: nat)
      in (9 \<le> n \<and> n \<le> 13) \<or> (28 \<le> n \<and> n \<le> 32) \<or> n = 133 \<or> n = 160)"

text \<open>\<^verbatim>\<open>s.strip()\<close>: leading and trailing whitespace removed.\<close>

definition py_strip :: "string \<Rightarrow> string" where
  "py_strip s = rev (dropWhile py_isspace (rev (dropWhile py_isspace s)))"

text \<open>\<^verbatim>\<open>str.lower\<close> on one code point below U+0100: the letters A to Z and the
  Latin-1 capitals U+00C0 to U+00DE (the multiplication sign U+00D7 apart) move up by 32;
  every other code point is unchanged.\<close>

definition py_lower_char :: "char \<Rightarrow> char" where
  "py_lower_char c =
     (let n = (of_char c :: nat)
      in if (65 \<le> n \<and> n \<le> 90) \<or> (192 \<le> n \<and> n \<le> 222 \<and> n \<noteq> 215)
         then char_of (n + 32) else c)"

definition py_lower :: "string \<Rightarrow> string" where
  "py_lower s = map py_lower_char s"

text \<open>Two code points that are equal or differ only in ASCII letter case: one is a
  letter A to Z and the other the same letter a to z.\<close>

definition ascii_case_variant :: "char \<Rightarrow> char \<Rightarrow> bool" where
  "ascii_case_variant a b =
     (let m = (of_char a :: nat); n = (of_char b :: nat)
      in a = b \<or> (65 \<le> m \<and> m \<le> 90 \<and> n = m + 32) \<or> (65 \<le> n \<and> n \<le> 90 \<and> m = n + 32))"

text \<open>\<^verbatim>\<open>s.startswith(k)\<close> and the substring test \<^verbatim>\<open>k in s\<close>.\<close>

fun startswith :: "string \<Rightarrow> string \<Rightarrow> bool" where
  "startswith s [] = True"
| "startswith [] (k # ks) = False"
| "startswith (c # cs) (k # ks) = (c = k \<and> startswith cs ks)"

fun py_in :: "string \<Rightarrow> string \<Rightarrow> bool" where
  "py_in k [] = (k = [])"
| "py_in k (c # cs) = (startswith (c # cs) k \<or> py_in k cs)"

text \<open>The typographic apostrophe U+2019 and the dashes U+2013 and U+2014 of the reply
  literals lie above U+00FF; the reply texts carry them in their UTF-8 encoding.\<close>

definition rsquo :: string where
  "rsquo = [CHR 0xE2, CHR 0x80, CHR 0x99]"

definition ndash :: string where
  "ndash = [CHR 0xE2, CHR 0x80, CHR 0x93]"

definition mdash :: string where
  "mdash = [CHR 0xE2, CHR 0x80, CHR 0x94]"

subsection \<open>Data\<close>

text \<open>A JSON value, for \<^verbatim>\<open>Dict[str, Any]\<close>; a dictionary keeps its insertion order.\<close>

datatype json = JNull | JBool bool | JNum int | JStr string
  | JArr "json list" | JObj "(string \<times> json) list"

type_synonym py_dict = "(string \<times> json) list"

text \<open>\<^verbatim>\<open>class Event(BaseModel)\<close>.\<close>

record Event =
  event_type :: string
  source :: string
  page :: "string option"
  session_id :: "string option"
  payload :: "py_dict option"

text \<open>A keyword argument of a constructor call: left out, or given.\<close>

datatype 'a kwarg = Omitted | Given 'a

text \<open>The constructor \<^verbatim>\<open>Event(...)\<close> with the defaults of the schema:
  \<^verbatim>\<open>source\<close> defaults to \<^verbatim>\<open>"website"\<close>, \<^verbatim>\<open>page\<close> and \<^verbatim>\<open>session_id\<close> to
  \<^verbatim>\<open>None\<close>, \<^verbatim>\<open>payload\<close> to \<^verbatim>\<open>default_factory=dict\<close>, the empty dictionary.\<close>

definition Event_init ::
  "string \<Rightarrow> string kwarg \<Rightarrow> string option kwarg \<Rightarrow> string option kwarg
     \<Rightarrow> py_dict option kwarg \<Rightarrow> Event" where
  "Event_init et src pg sid pl =
     \<lparr>event_type = et,
      source = (case src of Omitted \<Rightarrow> ''website'' | Given s \<Rightarrow> s),
      page = (case pg of Omitted \<Rightarrow> None | Given p \<Rightarrow> p),
      session_id = (case sid of Omitted \<Rightarrow> None | Given i \<Rightarrow> i),
      payload = (case pl of Omitted \<Rightarrow> Some [] | Given d \<Rightarrow> d)\<rparr>"

text \<open>\<^verbatim>\<open>class ChatRequest(BaseModel)\<close>. The field \<^verbatim>\<open>message\<close> is declared
  \<^verbatim>\<open>str\<close>; line 101 reads it as \<^verbatim>\<open>req.message or ""\<close>, which also accepts
  \<^verbatim>\<open>None\<close>, so the model keeps that case.\<close>

record ChatRequest =
  message :: "string option"
  session_id :: "string option"
  page :: "string option"
  consent :: bool
  user :: "py_dict option"

text \<open>One quick-reply dictionary: \<^verbatim>\<open>label\<close>, \<^verbatim>\<open>action\<close> and, for some, \<^verbatim>\<open>url\<close>.\<close>

record QuickReply =
  label :: string
  action :: string
  url :: "string option"

text \<open>The dictionary \<^verbatim>\<open>reply\<close> returns; its key \<^verbatim>\<open>"reply"\<close> is the field
  \<open>reply_text\<close>.\<close>

record ChatReply =
  reply_text :: string
  intent :: string
  quickReplies :: "QuickReply list"
  timestamp :: string

subsection \<open>The persistence collaborator\<close>

text \<open>\<^verbatim>\<open>create_document\<close> comes from the module \<^verbatim>\<open>database\<close>, which is not part of
  the sources: it is a parameter. Given the collection name, the document and its own
  state, it raises an exception or returns the new document's id, and leaves a new state.\<close>

datatype py_exception = PyException string

type_synonym 's create_document =
  "string \<Rightarrow> Event \<Rightarrow> 's \<Rightarrow> (py_exception + string) \<times> 's"

text \<open>The world \<^verbatim>\<open>chat\<close> runs in: the calls of \<^verbatim>\<open>create_document\<close> made so far, in
  order, and the collaborator's state.\<close>

record 's world =
  calls :: "(string \<times> Event) list"
  store :: 's

definition call_create_document ::
  "'s create_document \<Rightarrow> string \<Rightarrow> Event \<Rightarrow> 's world \<Rightarrow> (py_exception + string) \<times> 's world" where
  "call_create_document cd coll doc w =
     (case cd coll doc (store w) of
        (res, s') \<Rightarrow> (res, \<lparr>calls = calls w @ [(coll, doc)], store = s'\<rparr>))"

subsection \<open>The chat endpoint\<close>

text \<open>Line 101: \<^verbatim>\<open>text = (req.message or "").strip().lower()\<close>.\<close>

definition text_of :: "string option \<Rightarrow> string" where
  "text_of m = py_lower (py_strip (case m of None \<Rightarrow> [] | Some s \<Rightarrow> if s = [] then [] else s))"

text \<open>Lines 103 to 113: the inner function \<^verbatim>\<open>reply\<close>. \<^verbatim>\<open>quick or [...]\<close> takes the
  default list when \<^verbatim>\<open>quick\<close> is \<^verbatim>\<open>None\<close> or empty. The last argument is the value
  of \<^verbatim>\<open>datetime.now(timezone.utc).isoformat()\<close> at the call.\<close>

definition default_quick :: "QuickReply list" where
  "default_quick =
     [\<lparr>label = ''Book Now'', action = ''book'',
        url = Some ''https://cal.com/velodent-ogbkfv/20min''\<rparr>,
      \<lparr>label = ''Check Insurance'', action = ''insurance'', url = None\<rparr>,
      \<lparr>label = ''Request Callback'', action = ''callback'', url = None\<rparr>]"

definition reply :: "string \<Rightarrow> string \<Rightarrow> QuickReply list option \<Rightarrow> string \<Rightarrow> ChatReply" where
  "reply msg intent_arg quick now =
     \<lparr>reply_text = msg,
      intent = intent_arg,
      quickReplies = (case quick of None \<Rightarrow> default_quick
                      | Some q \<Rightarrow> if q = [] then default_quick else q),
      timestamp = now\<rparr>"

text \<open>Lines 116 to 125: the dictionary \<^verbatim>\<open>intents\<close>, in insertion order.\<close>

definition intents :: "(string \<times> string list) list" where
  "intents =
     [(''book'', [''book'', ''appointment'', ''schedule'', ''demo'']),
      (''reschedule'', [''reschedule'', ''missed'', ''change'']),
      (''cancel'', [''cancel'']),
      (''braces'', [''braces'', ''tightening'', ''adjustment'']),
      (''insurance'', [''insurance'', ''covered'', ''verify'']),
      (''payment'', [''pay'', ''payment'', ''billing'']),
      (''receptionist'', [''receptionist'', ''ai'', ''assistant'']),
      (''callback'', [''call'', ''phone'', ''contact''])]"

text \<open>Lines 127 to 131: the loop over \<^verbatim>\<open>intents.items()\<close>, which stops at the first
  entry one of whose keywords is in the text and otherwise leaves \<^verbatim>\<open>"general"\<close>.\<close>

fun intent_loop :: "(string \<times> string list) list \<Rightarrow> string \<Rightarrow> string" where
  "intent_loop [] txt = ''general''"
| "intent_loop ((i, kws) # rest) txt =
     (if list_ex (\<lambda>k. py_in k txt) kws then i else intent_loop rest txt)"

definition intent_detected :: "string option \<Rightarrow> string" where
  "intent_detected m = intent_loop intents (text_of m)"

text \<open>A statement that calls \<^verbatim>\<open>create_document\<close>, drops the id it returns and then
  returns \<open>r\<close>; an exception of the call leaves \<^verbatim>\<open>chat\<close> at once.\<close>

definition emit_then ::
  "'s create_document \<Rightarrow> Event \<Rightarrow> ChatReply \<Rightarrow> 's world \<Rightarrow> (py_exception + ChatReply) \<times> 's world" where
  "emit_then cd ev r w =
     (case call_create_document cd ''event'' ev w of
        (Inl e, w') \<Rightarrow> (Inl e, w')
      | (Inr doc_id, w') \<Rightarrow> (Inr r, w'))"

text \<open>Lines 133 to 178: the responses.\<close>

definition chat ::
  "'s create_document \<Rightarrow> string \<Rightarrow> ChatRequest \<Rightarrow> 's world \<Rightarrow> (py_exception + ChatReply) \<times> 's world" where
  "chat cd now req w =
     (let d = intent_detected (message req) in
      if d = ''book'' then
        emit_then cd
          (Event_init ''booking_requested'' (Given ''website'') (Given (ChatRequest.page req))
             (Given (ChatRequest.session_id req)) Omitted)
          (reply (''I can help you book a visit. Use Book Now to choose a time, or share your name, email, phone, and preferred times and I'' @ rsquo @ ''ll arrange it.'')
             ''booking'' None now) w
      else if d = ''reschedule'' then
        (Inr (reply ''No problem. Please share your name and the original appointment date, plus new preferred times. I can also send a rescheduling link.''
                ''reschedule'' None now), w)
      else if d = ''cancel'' then
        (Inr (reply ''I can assist with cancellations. Please confirm your name and appointment date so I can notify the team.''
                ''cancel'' None now), w)
      else if d = ''braces'' then
        (Inr (reply (''For braces, we typically schedule tightening every 4'' @ ndash @ ''8 weeks depending on your plan. If you'' @ rsquo @ ''re due, I can help you book a slot.'')
                ''braces_guidance'' None now), w)
      else if d = ''insurance'' then
        emit_then cd
          (Event_init ''insurance_check_requested'' (Given ''website'') (Given (ChatRequest.page req))
             (Given (ChatRequest.session_id req)) Omitted)
          (reply ''We verify insurance by collecting your provider and member ID, then confirming coverage. I can start that if you consent to share details.''
             ''insurance_info'' None now) w
      else if d = ''payment'' then
        (Inr (reply (''You can pay at the clinic via card or contactless. For invoices or estimates, our team can assist'' @ mdash @ ''would you like a callback?'')
                ''payment_info'' None now), w)
      else if d = ''receptionist'' then
        (Inr (reply (''Velodent'' @ rsquo @ ''s AI receptionist answers FAQs, helps with bookings, and can log your details privately. You control what you share.'')
                ''about_bot'' None now), w)
      else if d = ''callback'' then
        emit_then cd
          (Event_init ''handoff_requested'' (Given ''website'') (Given (ChatRequest.page req))
             (Given (ChatRequest.session_id req)) Omitted)
          (reply (''Sure'' @ mdash @ ''share your phone number and a good time to reach you, and we'' @ rsquo @ ''ll arrange a call.'')
             ''callback'' None now) w
      else
        (Inr (reply ''How can I help today? I can assist with bookings, insurance, braces schedules, or payments.''
                ''general'' None now), w))"

section \<open>Properties\<close>

subsection \<open>Substring test and the loop over the rules\<close>

lemma startswith_iff: "startswith s k \<longleftrightarrow> (\<exists>ss. s = k @ ss)"
  by (induction s k rule: startswith.induct) auto

lemma py_in_iff: "py_in k t \<longleftrightarrow> (\<exists>ps ss. t = ps @ k @ ss)"
proof (induction t)
  case Nil
  then show ?case by simp
next
  case (Cons c cs)
  show ?case
  proof
    assume "py_in k (c # cs)"
    then consider "startswith (c # cs) k" | "py_in k cs" by auto
    then show "\<exists>ps ss. c # cs = ps @ k @ ss"
    proof cases
      case 1
      then obtain ss where "c # cs = k @ ss" by (auto simp: startswith_iff)
      then have "c # cs = [] @ k @ ss" by simp
      then show ?thesis by blast
    next
      case 2
      then obtain ps ss where "cs = ps @ k @ ss" using Cons.IH by blast
      then have "c # cs = (c # ps) @ k @ ss" by simp
      then show ?thesis by blast
    qed
  next
    assume "\<exists>ps ss. c # cs = ps @ k @ ss"
    then obtain ps ss where e: "c # cs = ps @ k @ ss" by blast
    show "py_in k (c # cs)"
    proof (cases ps)
      case Nil
      with e have "startswith (c # cs) k" by (auto simp: startswith_iff)
      then show ?thesis by simp
    next
      case (Cons p ps')
      with e have "cs = ps' @ k @ ss" by simp
      then have "py_in k cs" using Cons.IH by blast
      then show ?thesis by simp
    qed
  qed
qed

lemma intent_loop_find:
  "intent_loop rs t =
     (case find (\<lambda>(i, kws). \<exists>k \<in> set kws. py_in k t) rs of
        None \<Rightarrow> ''general'' | Some (i, kws) \<Rightarrow> i)"
  by (induction rs t rule: intent_loop.induct) (auto simp: list_ex_iff)

lemma intent_loop_none:
  "\<forall>(i, kws) \<in> set rs. \<forall>k \<in> set kws. \<not> py_in k t \<Longrightarrow> intent_loop rs t = ''general''"
  by (induction rs t rule: intent_loop.induct) (auto simp: list_ex_iff)

subsection \<open>The calls and the reply of chat\<close>

lemma calls_emit_then: "calls (snd (emit_then cd ev r w)) = calls w @ [(''event'', ev)]"
  by (simp add: emit_then_def call_create_document_def split: prod.splits sum.splits)

lemma fst_emit_then:
  "fst (emit_then cd ev r w) =
     (case fst (cd ''event'' ev (store w)) of Inl e \<Rightarrow> Inl e | Inr i \<Rightarrow> Inr r)"
  by (simp add: emit_then_def call_create_document_def split: prod.splits sum.splits)

lemma Event_init_given:
  "Event_init et (Given s) (Given p) (Given i) Omitted =
     \<lparr>event_type = et, source = s, Event.page = p, Event.session_id = i, payload = Some []\<rparr>"
  by (simp add: Event_init_def)

lemma chat_calls:
  "calls (snd (chat cd now req w)) = calls w @
     (if intent_detected (message req) = ''book'' then
        [(''event'', \<lparr>event_type = ''booking_requested'', source = ''website'',
            Event.page = ChatRequest.page req, Event.session_id = ChatRequest.session_id req,
            payload = Some []\<rparr>)]
      else if intent_detected (message req) = ''insurance'' then
        [(''event'', \<lparr>event_type = ''insurance_check_requested'', source = ''website'',
            Event.page = ChatRequest.page req, Event.session_id = ChatRequest.session_id req,
            payload = Some []\<rparr>)]
      else if intent_detected (message req) = ''callback'' then
        [(''event'', \<lparr>event_type = ''handoff_requested'', source = ''website'',
            Event.page = ChatRequest.page req, Event.session_id = ChatRequest.session_id req,
            payload = Some []\<rparr>)]
      else [])"
  by (simp add: chat_def Let_def calls_emit_then Event_init_given)

lemma intent_of_chat_reply:
  "fst (chat cd now req w) = Inr r \<Longrightarrow>
     intent r =
       (if intent_detected (message req) = ''book'' then ''booking''
        else if intent_detected (message req) = ''reschedule'' then ''reschedule''
        else if intent_detected (message req) = ''cancel'' then ''cancel''
        else if intent_detected (message req) = ''braces'' then ''braces_guidance''
        else if intent_detected (message req) = ''insurance'' then ''insurance_info''
        else if intent_detected (message req) = ''payment'' then ''payment_info''
        else if intent_detected (message req) = ''receptionist'' then ''about_bot''
        else if intent_detected (message req) = ''callback'' then ''callback''
        else ''general'')"
  by (auto simp: chat_def Let_def fst_emit_then reply_def split: if_splits sum.splits)

lemma chat_reply_quick:
  "fst (chat cd now req w) = Inr r \<Longrightarrow> quickReplies r = default_quick"
  by (auto simp: chat_def Let_def fst_emit_then reply_def split: if_splits sum.splits)

lemma intent_loop_range: "intent_loop rs t \<in> insert ''general'' (fst ` set rs)"
  by (induction rs t rule: intent_loop.induct) auto

lemma intent_detected_range:
  "intent_detected m \<in> set [''book'', ''reschedule'', ''cancel'', ''braces'', ''insurance'',
        ''payment'', ''receptionist'', ''callback'', ''general'']"
  using intent_loop_range [of intents "text_of m"]
  by (simp add: intent_detected_def intents_def)

subsection \<open>Events\<close>

text \<open>
  Claim C2. For every chat request, \<^verbatim>\<open>chat\<close> calls \<^verbatim>\<open>create_document\<close> if and only if the
  detected intent is book, insurance or callback, and then exactly once, on the collection
  \<^verbatim>\<open>event\<close>: with event type \<^verbatim>\<open>booking_requested\<close> for book,
  \<^verbatim>\<open>insurance_check_requested\<close> for insurance and \<^verbatim>\<open>handoff_requested\<close> for callback,
  each with source \<^verbatim>\<open>website\<close> and the request's page and session id unchanged. For every
  other detected intent, \<^verbatim>\<open>general\<close> included, no call is made. This holds whatever the
  collaborator does with the call.
\<close>

theorem chat_emits_event_iff:
  "calls (snd (chat cd now req w)) = calls w @
     (if intent_detected (message req) = ''book'' then
        [(''event'', \<lparr>event_type = ''booking_requested'', source = ''website'',
            Event.page = ChatRequest.page req, Event.session_id = ChatRequest.session_id req,
            payload = Some []\<rparr>)]
      else if intent_detected (message req) = ''insurance'' then
        [(''event'', \<lparr>event_type = ''insurance_check_requested'', source = ''website'',
            Event.page = ChatRequest.page req, Event.session_id = ChatRequest.session_id req,
            payload = Some []\<rparr>)]
      else if intent_detected (message req) = ''callback'' then
        [(''event'', \<lparr>event_type = ''handoff_requested'', source = ''website'',
            Event.page = ChatRequest.page req, Event.session_id = ChatRequest.session_id req,
            payload = Some []\<rparr>)]
      else [])"
  by (rule chat_calls)

theorem chat_emits_event_iff_witness:
  "calls (snd (chat (\<lambda>c d s. (Inr ''id1'', s)) ''2024-05-01T10:00:00+00:00''
       \<lparr>message = Some ''is this covered by my insurance'', session_id = Some ''s1'',
          page = Some ''/pricing'', consent = False, user = None\<rparr>
       \<lparr>calls = [], store = ()\<rparr>))
     = [(''event'', \<lparr>event_type = ''insurance_check_requested'', source = ''website'',
            Event.page = Some ''/pricing'', Event.session_id = Some ''s1'', payload = Some []\<rparr>)]
   \<and> calls (snd (chat (\<lambda>c d s. (Inr ''id1'', s)) ''2024-05-01T10:00:00+00:00''
       \<lparr>message = Some ''hello'', session_id = Some ''s1'',
          page = Some ''/pricing'', consent = False, user = None\<rparr>
       \<lparr>calls = [], store = ()\<rparr>)) = []"
proof -
  have a: "intent_detected (Some ''is this covered by my insurance'') = ''insurance''"
    by code_simp
  have b: "intent_detected (Some ''hello'') = ''general''"
    by code_simp
  show ?thesis
    using chat_emits_event_iff [of "\<lambda>c d s. (Inr ''id1'', s)" "''2024-05-01T10:00:00+00:00''"
        "\<lparr>message = Some ''is this covered by my insurance'', session_id = Some ''s1'',
          page = Some ''/pricing'', consent = False, user = None\<rparr>" "\<lparr>calls = [], store = ()\<rparr>"]
      chat_emits_event_iff [of "\<lambda>c d s. (Inr ''id1'', s)" "''2024-05-01T10:00:00+00:00''"
        "\<lparr>message = Some ''hello'', session_id = Some ''s1'',
          page = Some ''/pricing'', consent = False, user = None\<rparr>" "\<lparr>calls = [], store = ()\<rparr>"]
    by (simp add: a b)
qed

text \<open>
  Claim C10. Every event that \<^verbatim>\<open>chat\<close> hands to \<^verbatim>\<open>create_document\<close> has the empty dictionary
  as its payload: the constructor is called without a payload argument, and the schema's
  default is the empty dictionary. Each such event goes to the collection \<^verbatim>\<open>event\<close> and
  has one of the three event types of the chat endpoint.
\<close>

theorem chat_events_payload_empty:
  "(\<forall>et s p i. payload (Event_init et (Given s) (Given p) (Given i) Omitted) = Some [])
   \<and> (\<exists>new. calls (snd (chat cd now req w)) = calls w @ new
         \<and> (\<forall>(coll, ev) \<in> set new. coll = ''event'' \<and> payload ev = Some []
               \<and> event_type ev \<in> set [''booking_requested'', ''insurance_check_requested'',
                     ''handoff_requested'']))"
proof -
  have a: "\<forall>et s p i. payload (Event_init et (Given s) (Given p) (Given i) Omitted) = Some []"
    by (simp add: Event_init_def)
  have b: "\<exists>new. calls (snd (chat cd now req w)) = calls w @ new
         \<and> (\<forall>(coll, ev) \<in> set new. coll = ''event'' \<and> payload ev = Some []
               \<and> event_type ev \<in> set [''booking_requested'', ''insurance_check_requested'',
                     ''handoff_requested''])"
    unfolding chat_calls by simp
  from a b show ?thesis by blast
qed

theorem chat_events_payload_empty_witness:
  "map (\<lambda>(coll, ev). payload ev)
     (calls (snd (chat (\<lambda>c d s. (Inr ''id1'', s)) ''2024-05-01T10:00:00+00:00''
       \<lparr>message = Some ''Please call me, my name is Ada'', session_id = None, page = None,
          consent = True, user = Some [(''name'', JStr ''Ada'')]\<rparr>
       \<lparr>calls = [], store = ()\<rparr>))) = [Some []]"
proof -
  let ?c = "calls (snd (chat (\<lambda>c d s. (Inr ''id1'', s)) ''2024-05-01T10:00:00+00:00''
       \<lparr>message = Some ''Please call me, my name is Ada'', session_id = None, page = None,
          consent = True, user = Some [(''name'', JStr ''Ada'')]\<rparr>
       \<lparr>calls = [], store = ()\<rparr>))"
  have a: "intent_detected (Some ''Please call me, my name is Ada'') = ''callback''"
    by code_simp
  have n: "length ?c = 1"
    by (simp add: chat_def Let_def a emit_then_def call_create_document_def)
  then obtain x where x: "?c = [x]"
    by (cases ?c) auto
  from chat_events_payload_empty [of "\<lambda>c d s. (Inr ''id1'', s)" "''2024-05-01T10:00:00+00:00''"
       "\<lparr>message = Some ''Please call me, my name is Ada'', session_id = None, page = None,
          consent = True, user = Some [(''name'', JStr ''Ada'')]\<rparr>" "\<lparr>calls = [], store = ()\<rparr>"]
  have "\<forall>(coll, ev) \<in> set ?c. payload ev = Some []"
    by auto
  then show ?thesis unfolding x by (cases x) simp
qed

text \<open>
  Claim C9. The fields \<^verbatim>\<open>consent\<close> and \<^verbatim>\<open>user\<close> of a request do not influence the result:
  two requests that agree on message, page and session id give the same result (the same
  reply with the same intent, text and quick replies, or the same exception) and the same
  calls of \<^verbatim>\<open>create_document\<close>.
\<close>

theorem chat_ignores_consent_user:
  assumes m: "message r1 = message r2"
    and p: "ChatRequest.page r1 = ChatRequest.page r2"
    and i: "ChatRequest.session_id r1 = ChatRequest.session_id r2"
  shows "chat cd now r1 w = chat cd now r2 w"
  unfolding chat_def m p i by (rule refl)

theorem chat_ignores_consent_user_witness:
  "chat (\<lambda>c d s. (Inr ''id1'', s)) ''2024-05-01T10:00:00+00:00''
       \<lparr>message = Some ''book me in'', session_id = Some ''s1'', page = None,
          consent = True, user = Some [(''name'', JStr ''Ada''), (''phone'', JStr ''555'')]\<rparr>
       \<lparr>calls = [], store = ()\<rparr>
   = chat (\<lambda>c d s. (Inr ''id1'', s)) ''2024-05-01T10:00:00+00:00''
       \<lparr>message = Some ''book me in'', session_id = Some ''s1'', page = None,
          consent = False, user = None\<rparr>
       \<lparr>calls = [], store = ()\<rparr>"
  by (rule chat_ignores_consent_user) simp_all

text \<open>
  Claim C6. Whatever the request and the detected intent, the quick replies of a returned
  reply are the default list of three entries, in this order: Book Now (action book, with
  the booking URL), Check Insurance (action insurance), Request Callback (action callback).
  Every entry has a non-empty label and action, and exactly one, book, has a non-empty URL.
\<close>

theorem chat_quick_replies_default:
  "fst (chat cd now req w) = Inr r \<Longrightarrow>
     quickReplies r =
       [\<lparr>label = ''Book Now'', action = ''book'',
          url = Some ''https://cal.com/velodent-ogbkfv/20min''\<rparr>,
        \<lparr>label = ''Check Insurance'', action = ''insurance'', url = None\<rparr>,
        \<lparr>label = ''Request Callback'', action = ''callback'', url = None\<rparr>]
     \<and> (\<forall>q \<in> set (quickReplies r). label q \<noteq> [] \<and> action q \<noteq> [])
     \<and> map action (filter (\<lambda>q. url q \<noteq> None \<and> url q \<noteq> Some []) (quickReplies r)) = [''book'']"
  by (simp add: chat_reply_quick default_quick_def)

theorem chat_quick_replies_default_witness:
  "map label (quickReplies (projr (fst (chat (\<lambda>c d s. (Inr ''id1'', s)) ''2024-05-01T10:00:00+00:00''
       \<lparr>message = Some ''hello'', session_id = None, page = None, consent = False, user = None\<rparr>
       \<lparr>calls = [], store = ()\<rparr>))))
     = [''Book Now'', ''Check Insurance'', ''Request Callback'']"
proof -
  have b: "intent_detected (Some ''hello'') = ''general''"
    by code_simp
  have "fst (chat (\<lambda>c d s. (Inr ''id1'', s)) ''2024-05-01T10:00:00+00:00''
       \<lparr>message = Some ''hello'', session_id = None, page = None, consent = False, user = None\<rparr>
       \<lparr>calls = [], store = ()\<rparr>) =
     Inr (reply ''How can I help today? I can assist with bookings, insurance, braces schedules, or payments.''
                ''general'' None ''2024-05-01T10:00:00+00:00'')"
    by (simp add: chat_def Let_def b)
  from chat_quick_replies_default [OF this] show ?thesis
    by (simp add: chat_def Let_def b)
qed

subsection \<open>The intent of the reply, and a failing write\<close>

lemma chat_no_write:
  "intent_detected (message req) \<notin> set [''book'', ''insurance'', ''callback''] \<Longrightarrow>
     \<exists>r. chat cd now req w = (Inr r, w)"
  by (simp add: chat_def Let_def)

lemma chat_write:
  "intent_detected (message req) \<in> set [''book'', ''insurance'', ''callback''] \<Longrightarrow>
     \<exists>ev r. chat cd now req w = emit_then cd ev r w"
  by (auto simp: chat_def Let_def)

text \<open>
  Claim C3, as stated, fails: for the message \<^verbatim>\<open>book\<close> the detected intent is \<^verbatim>\<open>book\<close>, but the
  intent field of the reply is \<^verbatim>\<open>booking\<close>, which is neither the detected intent nor a member
  of the set book, reschedule, cancel, braces, insurance, payment, receptionist, callback,
  general.
\<close>

theorem chat_reply_intent_counterexample:
  "map_sum (\<lambda>e. e) intent
     (fst (chat (\<lambda>c d s. (Inr ''id1'', s)) ''2024-05-01T10:00:00+00:00''
       \<lparr>message = Some ''book'', session_id = None, page = None, consent = False, user = None\<rparr>
       \<lparr>calls = [], store = ()\<rparr>)) = Inr ''booking''
   \<and> intent_detected (Some ''book'') = ''book''
   \<and> ''booking'' \<notin> set [''book'', ''reschedule'', ''cancel'', ''braces'', ''insurance'',
        ''payment'', ''receptionist'', ''callback'', ''general'']"
proof -
  have a: "intent_detected (Some ''book'') = ''book''"
    by code_simp
  show ?thesis
    by (simp add: chat_def Let_def a emit_then_def call_create_document_def reply_def)
qed

text \<open>
  Claim C3, amended. The detected intent is drawn from the closed set book, reschedule,
  cancel, braces, insurance, payment, receptionist, callback, general. The intent field of
  a returned reply is the response label that \<^verbatim>\<open>chat\<close> gives to the detected intent:
  \<^verbatim>\<open>booking\<close> for book, \<^verbatim>\<open>reschedule\<close> for reschedule, \<^verbatim>\<open>cancel\<close> for cancel,
  \<^verbatim>\<open>braces_guidance\<close> for braces, \<^verbatim>\<open>insurance_info\<close> for insurance, \<^verbatim>\<open>payment_info\<close> for
  payment, \<^verbatim>\<open>about_bot\<close> for receptionist, \<^verbatim>\<open>callback\<close> for callback and \<^verbatim>\<open>general\<close>
  otherwise; so it is drawn from the closed set of these nine labels.
\<close>

theorem chat_reply_intent_label:
  "fst (chat cd now req w) = Inr r \<Longrightarrow>
     intent_detected (message req) \<in> set [''book'', ''reschedule'', ''cancel'', ''braces'',
        ''insurance'', ''payment'', ''receptionist'', ''callback'', ''general'']
     \<and> intent r =
       (if intent_detected (message req) = ''book'' then ''booking''
        else if intent_detected (message req) = ''reschedule'' then ''reschedule''
        else if intent_detected (message req) = ''cancel'' then ''cancel''
        else if intent_detected (message req) = ''braces'' then ''braces_guidance''
        else if intent_detected (message req) = ''insurance'' then ''insurance_info''
        else if intent_detected (message req) = ''payment'' then ''payment_info''
        else if intent_detected (message req) = ''receptionist'' then ''about_bot''
        else if intent_detected (message req) = ''callback'' then ''callback''
        else ''general'')
     \<and> intent r \<in> set [''booking'', ''reschedule'', ''cancel'', ''braces_guidance'',
        ''insurance_info'', ''payment_info'', ''about_bot'', ''callback'', ''general'']"
proof -
  assume a: "fst (chat cd now req w) = Inr r"
  have b: "intent_detected (message req) \<in> set [''book'', ''reschedule'', ''cancel'', ''braces'',
        ''insurance'', ''payment'', ''receptionist'', ''callback'', ''general'']"
    by (rule intent_detected_range)
  note c = intent_of_chat_reply [OF a]
  have d: "intent r \<in> set [''booking'', ''reschedule'', ''cancel'', ''braces_guidance'',
        ''insurance_info'', ''payment_info'', ''about_bot'', ''callback'', ''general'']"
    unfolding c by simp
  from b c d show ?thesis by blast
qed

theorem chat_reply_intent_label_witness:
  "intent (projr (fst (chat (\<lambda>c d s. (Inr ''id1'', s)) ''2024-05-01T10:00:00+00:00''
       \<lparr>message = Some ''do you do braces?'', session_id = None, page = None, consent = False,
          user = None\<rparr>
       \<lparr>calls = [], store = ()\<rparr>))) = ''braces_guidance''"
proof -
  have a: "intent_detected (Some ''do you do braces?'') = ''braces''"
    by code_simp
  have "fst (chat (\<lambda>c d s. (Inr ''id1'', s)) ''2024-05-01T10:00:00+00:00''
       \<lparr>message = Some ''do you do braces?'', session_id = None, page = None, consent = False,
          user = None\<rparr>
       \<lparr>calls = [], store = ()\<rparr>) =
     Inr (projr (fst (chat (\<lambda>c d s. (Inr ''id1'', s)) ''2024-05-01T10:00:00+00:00''
       \<lparr>message = Some ''do you do braces?'', session_id = None, page = None, consent = False,
          user = None\<rparr>
       \<lparr>calls = [], store = ()\<rparr>)))"
    by (simp add: chat_def Let_def a)
  from chat_reply_intent_label [OF this] show ?thesis
    by (simp add: a)
qed

text \<open>
  Claim C5, as stated, fails: when \<^verbatim>\<open>create_document\<close> raises on the message \<^verbatim>\<open>book\<close>, the
  exception leaves \<^verbatim>\<open>chat\<close> and no reply is returned.
\<close>

theorem chat_write_failure_counterexample:
  "fst (chat (\<lambda>c d s. (Inl (PyException ''Database not available''), s))
       ''2024-05-01T10:00:00+00:00''
       \<lparr>message = Some ''book'', session_id = None, page = None, consent = False, user = None\<rparr>
       \<lparr>calls = [], store = ()\<rparr>) = Inl (PyException ''Database not available'')"
proof -
  have a: "intent_detected (Some ''book'') = ''book''"
    by code_simp
  show ?thesis
    by (simp add: chat_def Let_def a emit_then_def call_create_document_def)
qed

text \<open>
  Claim C5, amended. When the detected intent is not book, insurance or callback, no write
  is made, a reply is returned and the world is unchanged. When it is one of the three,
  \<^verbatim>\<open>chat\<close> makes one call of \<^verbatim>\<open>create_document\<close>; if the call raises, the same exception
  is raised by \<^verbatim>\<open>chat\<close> and no reply is returned; if the call returns, whatever id it
  returns, a reply is returned.
\<close>

theorem chat_write_failure_propagates:
  "(intent_detected (message req) \<notin> set [''book'', ''insurance'', ''callback'']
      \<longrightarrow> (\<exists>r. chat cd now req w = (Inr r, w)))
   \<and> (intent_detected (message req) \<in> set [''book'', ''insurance'', ''callback'']
      \<longrightarrow> (\<exists>ev. calls (snd (chat cd now req w)) = calls w @ [(''event'', ev)]
            \<and> (\<forall>e. fst (cd ''event'' ev (store w)) = Inl e \<longrightarrow> fst (chat cd now req w) = Inl e)
            \<and> (\<forall>i. fst (cd ''event'' ev (store w)) = Inr i
                  \<longrightarrow> (\<exists>r. fst (chat cd now req w) = Inr r))))"
proof (intro conjI impI)
  assume "intent_detected (message req) \<notin> set [''book'', ''insurance'', ''callback'']"
  then show "\<exists>r. chat cd now req w = (Inr r, w)"
    by (rule chat_no_write)
next
  assume "intent_detected (message req) \<in> set [''book'', ''insurance'', ''callback'']"
  then obtain ev r where c: "chat cd now req w = emit_then cd ev r w"
    using chat_write by blast
  have "calls (snd (chat cd now req w)) = calls w @ [(''event'', ev)]
     \<and> (\<forall>e. fst (cd ''event'' ev (store w)) = Inl e \<longrightarrow> fst (chat cd now req w) = Inl e)
     \<and> (\<forall>i. fst (cd ''event'' ev (store w)) = Inr i \<longrightarrow> (\<exists>r. fst (chat cd now req w) = Inr r))"
    unfolding c by (simp add: calls_emit_then fst_emit_then)
  then show "\<exists>ev. calls (snd (chat cd now req w)) = calls w @ [(''event'', ev)]
     \<and> (\<forall>e. fst (cd ''event'' ev (store w)) = Inl e \<longrightarrow> fst (chat cd now req w) = Inl e)
     \<and> (\<forall>i. fst (cd ''event'' ev (store w)) = Inr i \<longrightarrow> (\<exists>r. fst (chat cd now req w) = Inr r))"
    by blast
qed

theorem chat_write_failure_propagates_witness:
  "fst (chat (\<lambda>c d s. (Inl (PyException ''write timed out''), s)) ''2024-05-01T10:00:00+00:00''
       \<lparr>message = Some ''call me'', session_id = None, page = None, consent = False, user = None\<rparr>
       \<lparr>calls = [], store = ()\<rparr>) = Inl (PyException ''write timed out'')
   \<and> \<not> isl (fst (chat (\<lambda>c d s. (Inr ''id1'', s)) ''2024-05-01T10:00:00+00:00''
       \<lparr>message = Some ''call me'', session_id = None, page = None, consent = False, user = None\<rparr>
       \<lparr>calls = [], store = ()\<rparr>))
   \<and> \<not> isl (fst (chat (\<lambda>c d s. (Inl (PyException ''write timed out''), s)) ''2024-05-01T10:00:00+00:00''
       \<lparr>message = Some ''hello'', session_id = None, page = None, consent = False, user = None\<rparr>
       \<lparr>calls = [], store = ()\<rparr>))"
proof -
  have a: "intent_detected (Some ''call me'') = ''callback''"
    by code_simp
  have b: "intent_detected (Some ''hello'') = ''general''"
    by code_simp
  have 1: "fst (chat (\<lambda>c d s. (Inl (PyException ''write timed out''), s)) ''2024-05-01T10:00:00+00:00''
       \<lparr>message = Some ''call me'', session_id = None, page = None, consent = False, user = None\<rparr>
       \<lparr>calls = [], store = ()\<rparr>) = Inl (PyException ''write timed out'')"
    using chat_write_failure_propagates [of
       "\<lparr>message = Some ''call me'', session_id = None, page = None, consent = False, user = None\<rparr>"
       "\<lambda>c d s. (Inl (PyException ''write timed out''), s)" "''2024-05-01T10:00:00+00:00''"
       "\<lparr>calls = [], store = ()\<rparr>"]
    by (auto simp: a)
  have 2: "\<not> isl (fst (chat (\<lambda>c d s. (Inr ''id1'', s)) ''2024-05-01T10:00:00+00:00''
       \<lparr>message = Some ''call me'', session_id = None, page = None, consent = False, user = None\<rparr>
       \<lparr>calls = [], store = ()\<rparr>))"
    using chat_write_failure_propagates [of
       "\<lparr>message = Some ''call me'', session_id = None, page = None, consent = False, user = None\<rparr>"
       "\<lambda>c d s. (Inr ''id1'', s)" "''2024-05-01T10:00:00+00:00''"
       "\<lparr>calls = [], store = ()\<rparr>"]
    by (auto simp: a)
  have 3: "\<not> isl (fst (chat (\<lambda>c d s. (Inl (PyException ''write timed out''), s)) ''2024-05-01T10:00:00+00:00''
       \<lparr>message = Some ''hello'', session_id = None, page = None, consent = False, user = None\<rparr>
       \<lparr>calls = [], store = ()\<rparr>))"
    using chat_write_failure_propagates [of
       "\<lparr>message = Some ''hello'', session_id = None, page = None, consent = False, user = None\<rparr>"
       "\<lambda>c d s. (Inl (PyException ''write timed out''), s)" "''2024-05-01T10:00:00+00:00''"
       "\<lparr>calls = [], store = ()\<rparr>"]
    by (auto simp: b)
  from 1 2 3 show ?thesis by blast
qed

text \<open>
  Claim C8. The classification is deterministic and has no hidden state: two calls of
  \<^verbatim>\<open>chat\<close> on the same message return replies with the same intent, whatever the world
  each call starts in (the calls made before and the collaborator's state), whatever the
  collaborator, the clock and the other fields of the request. The detected intent itself
  is a function of the message alone.
\<close>

theorem chat_intent_stateless:
  "message r1 = message r2 \<Longrightarrow> fst (chat cd1 now1 r1 w1) = Inr a
   \<Longrightarrow> fst (chat cd2 now2 r2 w2) = Inr b \<Longrightarrow> intent a = intent b"
  by (simp add: intent_of_chat_reply)

theorem chat_intent_stateless_witness:
  "intent (projr (fst (chat (\<lambda>c d s. (Inr ''id1'', Suc s)) ''2024-05-01T10:00:00+00:00''
       \<lparr>message = Some ''Can I pay by card?'', session_id = Some ''s1'', page = None,
          consent = False, user = None\<rparr>
       \<lparr>calls = [], store = 0\<rparr>)))
   = intent (projr (fst (chat (\<lambda>c d s. (Inr ''id9'', s + 2)) ''2025-01-01T00:00:00+00:00''
       \<lparr>message = Some ''Can I pay by card?'', session_id = Some ''s2'', page = Some ''/fees'',
          consent = True, user = None\<rparr>
       \<lparr>calls = [(''event'', Event_init ''chat_started'' Omitted Omitted Omitted Omitted)],
          store = 7\<rparr>)))"
proof -
  have a: "intent_detected (Some ''Can I pay by card?'') = ''payment''"
    by code_simp
  show ?thesis
  proof (rule chat_intent_stateless)
    show "message \<lparr>message = Some ''Can I pay by card?'', session_id = Some ''s1'', page = None,
          consent = False, user = None\<rparr>
      = message \<lparr>message = Some ''Can I pay by card?'', session_id = Some ''s2'', page = Some ''/fees'',
          consent = True, user = None\<rparr>"
      by simp
    show "fst (chat (\<lambda>c d s. (Inr ''id1'', Suc s)) ''2024-05-01T10:00:00+00:00''
       \<lparr>message = Some ''Can I pay by card?'', session_id = Some ''s1'', page = None,
          consent = False, user = None\<rparr>
       \<lparr>calls = [], store = 0\<rparr>) = Inr (projr (fst (chat (\<lambda>c d s. (Inr ''id1'', Suc s)) ''2024-05-01T10:00:00+00:00''
       \<lparr>message = Some ''Can I pay by card?'', session_id = Some ''s1'', page = None,
          consent = False, user = None\<rparr>
       \<lparr>calls = [], store = 0\<rparr>)))"
      by (simp add: chat_def Let_def a)
    show "fst (chat (\<lambda>c d s. (Inr ''id9'', s + 2)) ''2025-01-01T00:00:00+00:00''
       \<lparr>message = Some ''Can I pay by card?'', session_id = Some ''s2'', page = Some ''/fees'',
          consent = True, user = None\<rparr>
       \<lparr>calls = [(''event'', Event_init ''chat_started'' Omitted Omitted Omitted Omitted)],
          store = 7\<rparr>) = Inr (projr (fst (chat (\<lambda>c d s. (Inr ''id9'', s + 2)) ''2025-01-01T00:00:00+00:00''
       \<lparr>message = Some ''Can I pay by card?'', session_id = Some ''s2'', page = Some ''/fees'',
          consent = True, user = None\<rparr>
       \<lparr>calls = [(''event'', Event_init ''chat_started'' Omitted Omitted Omitted Omitted)],
          store = 7\<rparr>)))"
      by (simp add: chat_def Let_def a)
  qed
qed

subsection \<open>Normalization\<close>

lemma variant_lower: "ascii_case_variant a b \<Longrightarrow> py_lower_char a = py_lower_char b"
proof -
  assume v: "ascii_case_variant a b"
  have up: "py_lower_char x = char_of ((of_char x :: nat) + 32) \<and> py_lower_char y = y"
    if "65 \<le> (of_char x :: nat)" "(of_char x :: nat) \<le> 90" "(of_char y :: nat) = of_char x + 32"
    for x y
    using that by (simp add: py_lower_char_def)
  have inv: "char_of ((of_char x :: nat) + 32) = y" if "(of_char y :: nat) = of_char x + 32" for x y
  proof -
    have "char_of (of_char y :: nat) = y" by simp
    with that show ?thesis by simp
  qed
  from v consider "a = b"
    | "65 \<le> (of_char a :: nat)" "(of_char a :: nat) \<le> 90" "(of_char b :: nat) = of_char a + 32"
    | "65 \<le> (of_char b :: nat)" "(of_char b :: nat) \<le> 90" "(of_char a :: nat) = of_char b + 32"
    by (auto simp: ascii_case_variant_def Let_def)
  then show ?thesis
  proof cases
    case 1
    then show ?thesis by simp
  next
    case 2
    from up [OF 2] inv [OF 2(3)] show ?thesis by simp
  next
    case 3
    from up [OF 3] inv [OF 3(3)] show ?thesis by simp
  qed
qed

lemma variant_space: "ascii_case_variant a b \<Longrightarrow> py_isspace a = py_isspace b"
  by (auto simp: ascii_case_variant_def py_isspace_def Let_def)

lemma dropWhile_all2:
  assumes "list_all2 R xs ys" and "\<And>a b. R a b \<Longrightarrow> P a = P b"
  shows "list_all2 R (dropWhile P xs) (dropWhile P ys)"
  using assms(1)
proof (induction rule: list_all2_induct)
  case Nil
  then show ?case by simp
next
  case (Cons x xs y ys)
  with assms(2) [of x y] show ?case by simp
qed

lemma strip_all2:
  "list_all2 ascii_case_variant xs ys \<Longrightarrow> list_all2 ascii_case_variant (py_strip xs) (py_strip ys)"
  unfolding py_strip_def
  by (intro iffD2 [OF list_all2_rev] dropWhile_all2 variant_space) 

lemma lower_all2: "list_all2 ascii_case_variant xs ys \<Longrightarrow> py_lower xs = py_lower ys"
  unfolding py_lower_def
  by (induction rule: list_all2_induct) (simp_all add: variant_lower)

lemma strip_pad:
  assumes l: "\<forall>c \<in> set l. py_isspace c" and r: "\<forall>c \<in> set r. py_isspace c"
  shows "py_strip (l @ m @ r) = py_strip m"
proof -
  have 1: "dropWhile py_isspace (l @ m @ r) = dropWhile py_isspace (m @ r)"
    using l by (simp add: dropWhile_append2)
  have 2: "dropWhile py_isspace (rev (dropWhile py_isspace (m @ r)))
         = dropWhile py_isspace (rev (dropWhile py_isspace m))"
  proof (cases "\<forall>c \<in> set m. py_isspace c")
    case True
    with r have e1: "dropWhile py_isspace (m @ r) = []" and e2: "dropWhile py_isspace m = []"
      by auto
    show ?thesis unfolding e1 e2 ..
  next
    case False
    then obtain x where "x \<in> set m" "\<not> py_isspace x" by blast
    then have e: "dropWhile py_isspace (m @ r) = dropWhile py_isspace m @ r"
      by (rule dropWhile_append1)
    have "dropWhile py_isspace (rev r @ ys) = dropWhile py_isspace ys" for ys
      using r by (intro dropWhile_append2) simp
    then show ?thesis unfolding e by simp
  qed
  show ?thesis unfolding py_strip_def 1 2 ..
qed

lemma text_of_None: "text_of None = text_of (Some [])"
  by (simp add: text_of_def)

lemma text_of_Some: "text_of (Some s) = py_lower (py_strip s)"
  by (simp add: text_of_def)

text \<open>
  Claim C7. Classification is invariant under normalization: adding (or removing)
  surrounding whitespace and changing the case of ASCII letters changes neither the
  normalized text nor the detected intent, because the message is stripped and lower-cased
  first. A message that is \<^verbatim>\<open>None\<close> is treated as the empty string.
\<close>

theorem chat_intent_normalization:
  "((\<forall>c \<in> set l \<union> set r. py_isspace c) \<and> list_all2 ascii_case_variant m m'
      \<longrightarrow> text_of (Some (l @ m' @ r)) = text_of (Some m)
        \<and> intent_detected (Some (l @ m' @ r)) = intent_detected (Some m))
   \<and> text_of None = [] \<and> intent_detected None = intent_detected (Some [])"
proof -
  have a: "text_of (Some (l @ m' @ r)) = text_of (Some m)"
    if s: "\<forall>c \<in> set l \<union> set r. py_isspace c" and v: "list_all2 ascii_case_variant m m'"
  proof -
    from s have "py_strip (l @ m' @ r) = py_strip m'"
      by (intro strip_pad) auto
    moreover from v have "py_lower (py_strip m) = py_lower (py_strip m')"
      by (intro lower_all2 strip_all2)
    ultimately show ?thesis by (simp add: text_of_Some)
  qed
  have b: "text_of None = []"
    by (simp add: text_of_def py_strip_def py_lower_def)
  have c: "intent_detected None = intent_detected (Some [])"
    by (simp add: intent_detected_def text_of_None)
  from a b c show ?thesis by (auto simp: intent_detected_def)
qed

theorem chat_intent_normalization_witness:
  "text_of (Some (''  '' @ ''Book NOW'' @ [CHR 0x09, CHR 0x0A])) = text_of (Some ''bOOk now'')
   \<and> intent_detected (Some (''  '' @ ''Book NOW'' @ [CHR 0x09, CHR 0x0A]))
       = intent_detected (Some ''bOOk now'')"
proof -
  have s: "\<forall>c \<in> set ''  '' \<union> set [CHR 0x09, CHR 0x0A]. py_isspace c"
    by (simp add: py_isspace_def)
  have v: "list_all2 ascii_case_variant ''bOOk now'' ''Book NOW''"
    by (simp add: ascii_case_variant_def)
  from s v chat_intent_normalization [of "''  ''" "[CHR 0x09, CHR 0x0A]" "''bOOk now''" "''Book NOW''"]
  show ?thesis by blast
qed

subsection \<open>Substring matching\<close>

lemma py_in_trans: "py_in a b \<Longrightarrow> py_in b c \<Longrightarrow> py_in a c"
proof -
  assume "py_in a b" and "py_in b c"
  then obtain p s p' s' where "b = p @ a @ s" and "c = p' @ b @ s'"
    unfolding py_in_iff by blast
  then have "c = (p' @ p) @ a @ (s @ s')" by simp
  then show ?thesis unfolding py_in_iff by blast
qed

lemma intent_loop_skip:
  "\<not> list_ex (\<lambda>(i, kws). list_ex (\<lambda>k. py_in k t) kws) rs \<Longrightarrow>
     intent_loop (rs @ rs') t = intent_loop rs' t"
  by (induction rs t rule: intent_loop.induct) auto

lemma intents_before_callback:
  "intents = takeWhile (\<lambda>(i, kws). i \<noteq> ''callback'') intents
     @ [(''callback'', [''call'', ''phone'', ''contact''])]"
  by (simp add: intents_def)

lemma intents_before_receptionist:
  "intents = takeWhile (\<lambda>(i, kws). i \<noteq> ''receptionist'') intents
     @ [(''receptionist'', [''receptionist'', ''ai'', ''assistant'']),
        (''callback'', [''call'', ''phone'', ''contact''])]"
  by (simp add: intents_def)

lemma recall_is_callback:
  assumes "py_in ''recall'' (text_of m)"
    and "\<not> list_ex (\<lambda>(i, kws). list_ex (\<lambda>k. py_in k (text_of m)) kws)
           (takeWhile (\<lambda>(i, kws). i \<noteq> ''callback'') intents)"
  shows "py_in ''call'' (text_of m) \<and> intent_detected m = ''callback''"
proof -
  have "py_in ''call'' ''recall''" by simp
  then have c: "py_in ''call'' (text_of m)"
    using assms(1) by (rule py_in_trans)
  have "intent_detected m
      = intent_loop (takeWhile (\<lambda>(i, kws). i \<noteq> ''callback'') intents
          @ [(''callback'', [''call'', ''phone'', ''contact''])]) (text_of m)"
    unfolding intent_detected_def using intents_before_callback by simp
  also have "\<dots> = intent_loop [(''callback'', [''call'', ''phone'', ''contact''])] (text_of m)"
    using assms(2) by (rule intent_loop_skip)
  also have "\<dots> = ''callback''"
    using c by simp
  finally show ?thesis using c by simp
qed

lemma ai_is_receptionist:
  assumes "py_in ''ai'' (text_of m)"
    and "\<not> list_ex (\<lambda>(i, kws). list_ex (\<lambda>k. py_in k (text_of m)) kws)
           (takeWhile (\<lambda>(i, kws). i \<noteq> ''receptionist'') intents)"
  shows "intent_detected m = ''receptionist''"
proof -
  have "intent_detected m
      = intent_loop (takeWhile (\<lambda>(i, kws). i \<noteq> ''receptionist'') intents
          @ [(''receptionist'', [''receptionist'', ''ai'', ''assistant'']),
             (''callback'', [''call'', ''phone'', ''contact''])]) (text_of m)"
    unfolding intent_detected_def using intents_before_receptionist by simp
  also have "\<dots> = intent_loop [(''receptionist'', [''receptionist'', ''ai'', ''assistant'']),
             (''callback'', [''call'', ''phone'', ''contact''])] (text_of m)"
    using assms(2) by (rule intent_loop_skip)
  also have "\<dots> = ''receptionist''"
    using assms(1) by simp
  finally show ?thesis .
qed

lemma text_display: "text_of (Some ''display'') = ''display''"
  by code_simp

lemma text_recall: "text_of (Some ''recall me please'') = ''recall me please''"
  by code_simp

text \<open>
  Claim C4, as stated, fails: the message \<^verbatim>\<open>display\<close> contains \<^verbatim>\<open>display\<close> and no keyword of a
  rule before receptionist, yet it is not classified as receptionist but as general: the
  word \<^verbatim>\<open>display\<close> does not contain \<^verbatim>\<open>ai\<close>.
\<close>

theorem chat_display_counterexample:
  "py_in ''display'' (text_of (Some ''display''))
   \<and> \<not> list_ex (\<lambda>(i, kws). list_ex (\<lambda>k. py_in k (text_of (Some ''display''))) kws)
         (takeWhile (\<lambda>(i, kws). i \<noteq> ''receptionist'') intents)
   \<and> \<not> py_in ''ai'' (text_of (Some ''display''))
   \<and> intent_detected (Some ''display'') = ''general''
   \<and> intent_detected (Some ''display'') \<noteq> ''receptionist''"
proof -
  have "intent_detected (Some ''display'') = ''general''"
    by code_simp
  then show ?thesis
    unfolding text_display by (simp add: intents_def)
qed

text \<open>
  Claim C4, amended. Keyword matching is plain substring matching, not word-boundary
  matching. Every message whose normalized text contains \<^verbatim>\<open>recall\<close> and no keyword of a
  rule before callback contains the keyword \<^verbatim>\<open>call\<close> and is classified as callback. Every
  message whose normalized text contains \<^verbatim>\<open>ai\<close>, inside a word or not, and no keyword of a
  rule before receptionist is classified as receptionist. The word \<^verbatim>\<open>display\<close> does not
  contain \<^verbatim>\<open>ai\<close>, and the message \<^verbatim>\<open>display\<close> is classified as general. The message
  \<^verbatim>\<open>recall me please\<close> is classified as callback, \<^verbatim>\<open>chat\<close> emits exactly one
  \<^verbatim>\<open>handoff_requested\<close> event for it, and a returned reply has the intent \<^verbatim>\<open>callback\<close>.
\<close>

theorem chat_substring_matching:
  "(py_in ''recall'' (text_of m)
      \<and> \<not> list_ex (\<lambda>(i, kws). list_ex (\<lambda>k. py_in k (text_of m)) kws)
            (takeWhile (\<lambda>(i, kws). i \<noteq> ''callback'') intents)
      \<longrightarrow> py_in ''call'' (text_of m) \<and> intent_detected m = ''callback'')
   \<and> (py_in ''ai'' (text_of m)
      \<and> \<not> list_ex (\<lambda>(i, kws). list_ex (\<lambda>k. py_in k (text_of m)) kws)
            (takeWhile (\<lambda>(i, kws). i \<noteq> ''receptionist'') intents)
      \<longrightarrow> intent_detected m = ''receptionist'')
   \<and> \<not> py_in ''ai'' ''display'' \<and> intent_detected (Some ''display'') = ''general''
   \<and> intent_detected (Some ''recall me please'') = ''callback''
   \<and> calls (snd (chat cd now
         \<lparr>message = Some ''recall me please'', session_id = sid, page = pg, consent = c, user = u\<rparr> w))
       = calls w @ [(''event'', \<lparr>event_type = ''handoff_requested'', source = ''website'',
            Event.page = pg, Event.session_id = sid, payload = Some []\<rparr>)]
   \<and> (\<forall>r. fst (chat cd now
         \<lparr>message = Some ''recall me please'', session_id = sid, page = pg, consent = c, user = u\<rparr> w)
         = Inr r \<longrightarrow> intent r = ''callback'')"
proof -
  have d: "intent_detected (Some ''display'') = ''general''"
    by code_simp
  have e: "intent_detected (Some ''recall me please'') = ''callback''"
    by code_simp
  have f: "\<not> py_in ''ai'' ''display''"
    by simp
  have g: "calls (snd (chat cd now
         \<lparr>message = Some ''recall me please'', session_id = sid, page = pg, consent = c, user = u\<rparr> w))
       = calls w @ [(''event'', \<lparr>event_type = ''handoff_requested'', source = ''website'',
            Event.page = pg, Event.session_id = sid, payload = Some []\<rparr>)]"
    unfolding chat_calls by (simp add: e)
  have h: "\<forall>r. fst (chat cd now
         \<lparr>message = Some ''recall me please'', session_id = sid, page = pg, consent = c, user = u\<rparr> w)
         = Inr r \<longrightarrow> intent r = ''callback''"
    by (auto dest!: intent_of_chat_reply simp: e)
  from recall_is_callback ai_is_receptionist d e f g h show ?thesis
    by blast
qed

theorem chat_substring_matching_witness:
  "intent_detected (Some ''Total recall'') = ''callback''
   \<and> intent_detected (Some ''I said hello'') = ''receptionist''
   \<and> map (\<lambda>(coll, ev). event_type ev)
       (calls (snd (chat (\<lambda>c d s. (Inr ''id1'', s)) ''2024-05-01T10:00:00+00:00''
         \<lparr>message = Some ''recall me please'', session_id = None, page = None, consent = False,
            user = None\<rparr>
         \<lparr>calls = [], store = ()\<rparr>))) = [''handoff_requested'']
   \<and> intent (projr (fst (chat (\<lambda>c d s. (Inr ''id1'', s)) ''2024-05-01T10:00:00+00:00''
         \<lparr>message = Some ''recall me please'', session_id = None, page = None, consent = False,
            user = None\<rparr>
         \<lparr>calls = [], store = ()\<rparr>))) = ''callback''"
proof -
  have t1: "text_of (Some ''Total recall'') = ''total recall''"
    by code_simp
  have t2: "text_of (Some ''I said hello'') = ''i said hello''"
    by code_simp
  have h1: "py_in ''recall'' (text_of (Some ''Total recall''))
      \<and> \<not> list_ex (\<lambda>(i, kws). list_ex (\<lambda>k. py_in k (text_of (Some ''Total recall''))) kws)
            (takeWhile (\<lambda>(i, kws). i \<noteq> ''callback'') intents)"
    unfolding t1 by (simp add: intents_def)
  have h2: "py_in ''ai'' (text_of (Some ''I said hello''))
      \<and> \<not> list_ex (\<lambda>(i, kws). list_ex (\<lambda>k. py_in k (text_of (Some ''I said hello''))) kws)
            (takeWhile (\<lambda>(i, kws). i \<noteq> ''receptionist'') intents)"
    unfolding t2 by (simp add: intents_def)
  have e: "intent_detected (Some ''recall me please'') = ''callback''"
    by code_simp
  have h3: "fst (chat (\<lambda>c d s. (Inr ''id1'', s)) ''2024-05-01T10:00:00+00:00''
         \<lparr>message = Some ''recall me please'', session_id = None, page = None, consent = False,
            user = None\<rparr>
         \<lparr>calls = [], store = ()\<rparr>)
      = Inr (projr (fst (chat (\<lambda>c d s. (Inr ''id1'', s)) ''2024-05-01T10:00:00+00:00''
         \<lparr>message = Some ''recall me please'', session_id = None, page = None, consent = False,
            user = None\<rparr>
         \<lparr>calls = [], store = ()\<rparr>)))"
    by (simp add: chat_def Let_def e emit_then_def call_create_document_def)
  note a = chat_substring_matching [of "Some ''Total recall''" "\<lambda>c d s. (Inr ''id1'', s)"
      "''2024-05-01T10:00:00+00:00''" None None False None "\<lparr>calls = [], store = ()\<rparr>"]
  note b = chat_substring_matching [of "Some ''I said hello''" "\<lambda>c d s. (Inr ''id1'', s)"
      "''2024-05-01T10:00:00+00:00''" None None False None "\<lparr>calls = [], store = ()\<rparr>"]
  from a h1 have 1: "intent_detected (Some ''Total recall'') = ''callback''" by blast
  from b h2 have 2: "intent_detected (Some ''I said hello'') = ''receptionist''" by blast
  from a have 3: "calls (snd (chat (\<lambda>c d s. (Inr ''id1'', s)) ''2024-05-01T10:00:00+00:00''
         \<lparr>message = Some ''recall me please'', session_id = None, page = None, consent = False,
            user = None\<rparr>
         \<lparr>calls = [], store = ()\<rparr>))
       = [(''event'', \<lparr>event_type = ''handoff_requested'', source = ''website'',
            Event.page = None, Event.session_id = None, payload = Some []\<rparr>)]"
    by simp
  from a h3 have 4: "intent (projr (fst (chat (\<lambda>c d s. (Inr ''id1'', s)) ''2024-05-01T10:00:00+00:00''
         \<lparr>message = Some ''recall me please'', session_id = None, page = None, consent = False,
            user = None\<rparr>
         \<lparr>calls = [], store = ()\<rparr>))) = ''callback''"
    by blast
  from 1 2 4 show ?thesis unfolding 3 by simp
qed

subsection \<open>Classification\<close>

lemma strip_Nil: "py_strip [] = []"
  by (simp add: py_strip_def)

lemma strip_core:
  "s \<noteq> [] \<Longrightarrow> \<not> py_isspace (hd s) \<Longrightarrow> \<not> py_isspace (last s) \<Longrightarrow> py_strip s = s"
proof -
  assume n: "s \<noteq> []" and h: "\<not> py_isspace (hd s)" and l: "\<not> py_isspace (last s)"
  from n h have 1: "dropWhile py_isspace s = s"
    by (cases s) auto
  from n l have 2: "dropWhile py_isspace (rev s) = rev s"
    by (cases "rev s") (auto simp: last_rev hd_rev)
  show ?thesis unfolding py_strip_def 1 2 by simp
qed

lemma text_of_alt: "text_of m = py_lower (py_strip (case m of None \<Rightarrow> [] | Some s \<Rightarrow> s))"
  by (cases m) (simp_all add: text_of_def)

lemma isspace_codes:
  "py_isspace c \<longleftrightarrow> (of_char c :: nat) \<in> set [9, 10, 11, 12, 13, 28, 29, 30, 31, 32, 133, 160]"
  by (auto simp: py_isspace_def Let_def)

lemma lower_codes:
  "map of_char (py_lower s) =
     map (\<lambda>c. if (65 \<le> (of_char c :: nat) \<and> (of_char c :: nat) \<le> 90)
                 \<or> (192 \<le> (of_char c :: nat) \<and> (of_char c :: nat) \<le> 222 \<and> (of_char c :: nat) \<noteq> 215)
               then of_char c + 32 else (of_char c :: nat)) s"
  by (auto simp: py_lower_def py_lower_char_def Let_def)

lemma lower_alphabet: "py_lower ''ABCDEFGHIJKLMNOPQRSTUVWXYZ'' = ''abcdefghijklmnopqrstuvwxyz''"
  by code_simp

lemma intent_detected_find:
  "intent_detected m =
     (case find (\<lambda>(i, kws). \<exists>k \<in> set kws. \<exists>ps ss.
                   py_lower (py_strip (case m of None \<Rightarrow> [] | Some s \<Rightarrow> s)) = ps @ k @ ss)
        [(''book'', [''book'', ''appointment'', ''schedule'', ''demo'']),
         (''reschedule'', [''reschedule'', ''missed'', ''change'']),
         (''cancel'', [''cancel'']),
         (''braces'', [''braces'', ''tightening'', ''adjustment'']),
         (''insurance'', [''insurance'', ''covered'', ''verify'']),
         (''payment'', [''pay'', ''payment'', ''billing'']),
         (''receptionist'', [''receptionist'', ''ai'', ''assistant'']),
         (''callback'', [''call'', ''phone'', ''contact''])] of
        None \<Rightarrow> ''general'' | Some (i, kws) \<Rightarrow> i)"
  using intent_loop_find [of intents "text_of m", unfolded py_in_iff]
  unfolding intent_detected_def text_of_alt intents_def .

lemma intent_detected_none:
  "\<forall>(i, kws) \<in> set
        [(''book'', [''book'', ''appointment'', ''schedule'', ''demo'']),
         (''reschedule'', [''reschedule'', ''missed'', ''change'']),
         (''cancel'', [''cancel'']),
         (''braces'', [''braces'', ''tightening'', ''adjustment'']),
         (''insurance'', [''insurance'', ''covered'', ''verify'']),
         (''payment'', [''pay'', ''payment'', ''billing'']),
         (''receptionist'', [''receptionist'', ''ai'', ''assistant'']),
         (''callback'', [''call'', ''phone'', ''contact''])].
      \<forall>k \<in> set kws. \<not> (\<exists>ps ss.
         py_lower (py_strip (case m of None \<Rightarrow> [] | Some s \<Rightarrow> s)) = ps @ k @ ss)
   \<Longrightarrow> intent_detected m = ''general''"
  using intent_loop_none [of intents "text_of m", unfolded py_in_iff]
  unfolding intent_detected_def text_of_alt intents_def .

text \<open>
  Claim C1. For every message, the detected intent is the intent of the first rule, in
  the declared order book, reschedule, cancel, braces, insurance, payment, receptionist,
  callback, one of whose keywords (the keyword lists are those of the source) is a
  substring of the normalized message, that is the message stripped of surrounding
  whitespace and then lower-cased, with \<^verbatim>\<open>None\<close> read as the empty string; it is
  \<open>general\<close> when no rule matches, so in particular when the normalized message
  contains none of the keywords. Stripping removes exactly the surrounding whitespace
  (code points 9 to 13, 28 to 32, 133 and 160); lower-casing moves the code points of A
  to Z and of the Latin-1 capitals up by 32 and leaves every other code point unchanged.
  The message \<open>I want to reschedule my appointment booking\<close>, which matches both book and
  reschedule, is \<open>book\<close>.
\<close>

theorem chat_intent_first_match:
  "(let rules =
          [(''book'', [''book'', ''appointment'', ''schedule'', ''demo'']),
           (''reschedule'', [''reschedule'', ''missed'', ''change'']),
           (''cancel'', [''cancel'']),
           (''braces'', [''braces'', ''tightening'', ''adjustment'']),
           (''insurance'', [''insurance'', ''covered'', ''verify'']),
           (''payment'', [''pay'', ''payment'', ''billing'']),
           (''receptionist'', [''receptionist'', ''ai'', ''assistant'']),
           (''callback'', [''call'', ''phone'', ''contact''])];
        t = py_lower (py_strip (case m of None \<Rightarrow> [] | Some s \<Rightarrow> s))
    in intent_detected m =
         (case find (\<lambda>(i, kws). \<exists>k \<in> set kws. \<exists>ps ss. t = ps @ k @ ss) rules of
            None \<Rightarrow> ''general'' | Some (i, kws) \<Rightarrow> i)
       \<and> ((\<forall>(i, kws) \<in> set rules. \<forall>k \<in> set kws. \<not> (\<exists>ps ss. t = ps @ k @ ss))
            \<longrightarrow> intent_detected m = ''general''))
   \<and> (\<forall>l s r. (\<forall>c \<in> set l \<union> set r. py_isspace c) \<longrightarrow> py_strip (l @ s @ r) = py_strip s)
   \<and> (\<forall>s. s \<noteq> [] \<and> \<not> py_isspace (hd s) \<and> \<not> py_isspace (last s) \<longrightarrow> py_strip s = s)
   \<and> py_strip [] = []
   \<and> (\<forall>c. py_isspace c \<longleftrightarrow>
          (of_char c :: nat) \<in> set [9, 10, 11, 12, 13, 28, 29, 30, 31, 32, 133, 160])
   \<and> (\<forall>s. map of_char (py_lower s) =
          map (\<lambda>c. if (65 \<le> (of_char c :: nat) \<and> (of_char c :: nat) \<le> 90)
                      \<or> (192 \<le> (of_char c :: nat) \<and> (of_char c :: nat) \<le> 222
                          \<and> (of_char c :: nat) \<noteq> 215)
                    then of_char c + 32 else (of_char c :: nat)) s)
   \<and> py_lower ''ABCDEFGHIJKLMNOPQRSTUVWXYZ'' = ''abcdefghijklmnopqrstuvwxyz''
   \<and> intent_detected (Some ''I want to reschedule my appointment booking'') = ''book''
   \<and> intent_detected (Some ''  BOOK  '') = ''book''
   \<and> intent_detected (Some ''please cancel my visit'') = ''cancel''
   \<and> intent_detected (Some ''Is this COVERED?'') = ''insurance''
   \<and> intent_detected (Some ''hello'') = ''general''"
proof -
  have pad: "\<forall>l s r. (\<forall>c \<in> set l \<union> set r. py_isspace c) \<longrightarrow> py_strip (l @ s @ r) = py_strip s"
  proof (intro allI impI)
    fix l s r
    assume "\<forall>c \<in> set l \<union> set r. py_isspace c"
    then show "py_strip (l @ s @ r) = py_strip s"
      by (intro strip_pad) auto
  qed
  have core: "\<forall>s. s \<noteq> [] \<and> \<not> py_isspace (hd s) \<and> \<not> py_isspace (last s) \<longrightarrow> py_strip s = s"
    using strip_core by blast
  have sp: "\<forall>c. py_isspace c \<longleftrightarrow>
          (of_char c :: nat) \<in> set [9, 10, 11, 12, 13, 28, 29, 30, 31, 32, 133, 160]"
    using isspace_codes by blast
  have lo: "\<forall>s. map of_char (py_lower s) =
          map (\<lambda>c. if (65 \<le> (of_char c :: nat) \<and> (of_char c :: nat) \<le> 90)
                      \<or> (192 \<le> (of_char c :: nat) \<and> (of_char c :: nat) \<le> 222
                          \<and> (of_char c :: nat) \<noteq> 215)
                    then of_char c + 32 else (of_char c :: nat)) s"
    using lower_codes by blast
  have e1: "intent_detected (Some ''I want to reschedule my appointment booking'') = ''book''"
    by code_simp
  have e2: "intent_detected (Some ''  BOOK  '') = ''book''"
    by code_simp
  have e3: "intent_detected (Some ''please cancel my visit'') = ''cancel''"
    by code_simp
  have e4: "intent_detected (Some ''Is this COVERED?'') = ''insurance''"
    by code_simp
  have e5: "intent_detected (Some ''hello'') = ''general''"
    by code_simp
  show ?thesis
    unfolding Let_def
    using intent_detected_find [of m] intent_detected_none [of m] pad core strip_Nil sp lo
      lower_alphabet e1 e2 e3 e4 e5
    by (intro conjI impI) assumption+
qed

theorem chat_intent_first_match_witness:
  "\<not> list_ex (\<lambda>(i, kws). list_ex (\<lambda>k. py_in k (py_lower (py_strip ''  Hello THERE ''))) kws)
        intents
   \<and> intent_detected (Some ''  Hello THERE '') = ''general''
   \<and> py_strip (''  '' @ ''Hello THERE'' @ '' '') = py_strip ''Hello THERE''
   \<and> py_strip ''Hello THERE'' = ''Hello THERE''"
proof -
  note inst = chat_intent_first_match [of "Some ''  Hello THERE ''", unfolded Let_def]
  have t: "py_lower (py_strip ''  Hello THERE '') = ''hello there''"
    by code_simp
  have h: "\<not> list_ex (\<lambda>(i, kws). list_ex (\<lambda>k. py_in k (py_lower (py_strip ''  Hello THERE ''))) kws)
        intents"
    unfolding t by (simp add: intents_def)
  then have h': "\<forall>(i, kws) \<in> set intents. \<forall>k \<in> set kws.
      \<not> (\<exists>ps ss. py_lower (py_strip ''  Hello THERE '') = ps @ k @ ss)"
    unfolding list_ex_iff py_in_iff by blast
  have 1: "intent_detected (Some ''  Hello THERE '') = ''general''"
    using inst h' unfolding intents_def by simp
  have s: "\<forall>c \<in> set ''  '' \<union> set '' ''. py_isspace c"
    by (simp add: py_isspace_def)
  from inst s have 2: "py_strip (''  '' @ ''Hello THERE'' @ '' '') = py_strip ''Hello THERE''"
    by blast
  have c: "''Hello THERE'' \<noteq> [] \<and> \<not> py_isspace (hd ''Hello THERE'')
      \<and> \<not> py_isspace (last ''Hello THERE'')"
    by (simp add: py_isspace_def)
  from inst c have 3: "py_strip ''Hello THERE'' = ''Hello THERE''"
    by blast
  from h 1 2 3 show ?thesis by blast
qed

end
